theory Spec2Isabelle
  imports Main
begin

section \<open>Strings\<close>

text \<open>
  A JavaScript string is modelled as a list of code units; the model covers the code units
  below 256, which is what \<^typ>\<open>char\<close> holds. Among those, \<open>String.prototype.trim\<close> and
  the regular-expression class \<open>\s\<close> treat the same seven as white space: tab, line feed,
  vertical tab, form feed, carriage return, space and the no-break space.
\<close>

definition is_space :: "char \<Rightarrow> bool" where
  "is_space c \<longleftrightarrow>
     c = CHR 0x09 \<or> c = CHR 0x0A \<or> c = CHR 0x0B \<or> c = CHR 0x0C \<or> c = CHR 0x0D
     \<or> c = CHR 0x20 \<or> c = CHR 0xA0"

definition trim :: "string \<Rightarrow> string" where
  "trim s = rev (dropWhile is_space (rev (dropWhile is_space s)))"

definition startsWith :: "string \<Rightarrow> string \<Rightarrow> bool" where
  "startsWith p s \<longleftrightarrow> take (length p) s = p"

definition endsWith :: "string \<Rightarrow> string \<Rightarrow> bool" where
  "endsWith p s \<longleftrightarrow> length p \<le> length s \<and> drop (length s - length p) s = p"

text \<open>
  \<open>s.slice(a, -b)\<close>: the code units from index \<open>a\<close> up to \<open>b\<close> before the end; empty when
  the two bounds cross.
\<close>

definition slice :: "nat \<Rightarrow> nat \<Rightarrow> string \<Rightarrow> string" where
  "slice a b s = drop a (take (length s - b) s)"

text \<open>
  \<open>s.split(c)\<close> for a separator of one code unit: the pieces between the separators, an
  empty piece between two adjacent separators and at either end. The result is never the
  empty array.
\<close>

fun split_on :: "char \<Rightarrow> string \<Rightarrow> string list" where
  "split_on c [] = [[]]"
| "split_on c (x # xs) =
     (if x = c then [] # split_on c xs
      else (case split_on c xs of w # ws \<Rightarrow> (x # w) # ws | [] \<Rightarrow> [[x]]))"

text \<open>\<open>xs.join(sep)\<close>.\<close>

fun join :: "string \<Rightarrow> string list \<Rightarrow> string" where
  "join sep [] = []"
| "join sep [x] = x"
| "join sep (x # y # ys) = x @ sep @ join sep (y # ys)"

section \<open>The conversation session\<close>

text \<open>
  The state of \<open>ChatPage\<close> that \<open>sendMessage\<close>, \<open>simulateStreaming\<close> and \<open>stopStreaming\<close>
  read and write: the React state variables, the interval handle kept in
  \<open>streamIntervalRef\<close>, and the two pieces of the environment they act on, the browser's
  table of live intervals and the requests handed to \<open>fetch\<close>.

  A message id is \<open>Date.now()\<close> or \<open>Date.now() + 1\<close> printed in decimal; the model keeps the
  number. Each handler reads the clock once; the reading is its \<open>now\<close> argument.
\<close>

datatype role = User | Assistant

record message =
  msg_id :: int
  content :: string
  role :: role
  timestamp :: int

text \<open>
  What the interval callback of \<open>simulateStreaming\<close> closes over: the counter
  \<open>currentIndex\<close>, the array \<open>words\<close> and the reply itself.
\<close>

record reveal =
  currentIndex :: nat
  words :: "string list"
  fullText :: string

record session =
  messages :: "message list"
  input :: string
  isLoading :: bool
  streamingMessage :: string
  isStreaming :: bool
  streamIntervalRef :: "nat option"
  timers :: "(nat \<times> reveal) list"
  nextTimer :: nat
  requests :: "string list"

definition initial :: session where
  "initial = \<lparr>messages = [], input = [], isLoading = False, streamingMessage = [],
     isStreaming = False, streamIntervalRef = None, timers = [], nextTimer = 1,
     requests = []\<rparr>"

text \<open>\<open>clearInterval(h)\<close>; \<open>clearInterval(null)\<close> does nothing.\<close>

definition clearInterval :: "nat option \<Rightarrow> (nat \<times> reveal) list \<Rightarrow> (nat \<times> reveal) list" where
  "clearInterval h ts = (case h of None \<Rightarrow> ts | Some i \<Rightarrow> filter (\<lambda>(j, r). j \<noteq> i) ts)"

definition assistantMessage :: "int \<Rightarrow> string \<Rightarrow> message" where
  "assistantMessage now t = \<lparr>msg_id = now + 1, content = t, role = Assistant, timestamp = now\<rparr>"

definition userMessage :: "int \<Rightarrow> string \<Rightarrow> message" where
  "userMessage now t = \<lparr>msg_id = now, content = t, role = User, timestamp = now\<rparr>"

definition errorText :: string where
  "errorText = ''Sorry, I encountered an error. Please make sure the backend server is running on https://multi-agents-backend.vercel.app/api/chat''"

subsection \<open>stopStreaming\<close>

definition stopStreaming :: "int \<Rightarrow> session \<Rightarrow> session" where
  "stopStreaming now s =
     (case streamIntervalRef s of
        None \<Rightarrow> s
      | Some h \<Rightarrow>
          (let s1 = s\<lparr>timers := clearInterval (Some h) (timers s),
                      streamIntervalRef := None, isStreaming := False\<rparr>
           in if streamingMessage s \<noteq> []
              then s1\<lparr>messages := messages s1 @ [assistantMessage now (streamingMessage s)],
                      streamingMessage := []\<rparr>
              else s1))"

subsection \<open>simulateStreaming\<close>

text \<open>
  What the code can throw inside the \<open>try\<close> of \<open>sendMessage\<close>. A thrown error comes with
  the state at the moment of the throw: the state updates made before it stay.
\<close>

datatype js_error = FetchFailed | HttpError nat | SyntaxError | TypeError

text \<open>
  The argument is the run-time value of \<open>data.reply\<close>: \<open>Some t\<close> when it is the string
  \<open>t\<close>, \<open>None\<close> when it is anything else (\<open>undefined\<close>, a number, ...), on which
  \<open>text.split\<close> raises a TypeError. The two state updates come before the split.
  The interval started last is appended to the table; nothing is cleared.
\<close>

definition simulateStreaming :: "string option \<Rightarrow> session \<Rightarrow> (js_error \<times> session) + session" where
  "simulateStreaming v s =
     (let s1 = s\<lparr>isStreaming := True, streamingMessage := []\<rparr>
      in case v of
           None \<Rightarrow> Inl (TypeError, s1)
         | Some t \<Rightarrow>
             Inr (s1\<lparr>streamIntervalRef := Some (nextTimer s1),
                     timers := timers s1 @
                       [(nextTimer s1, \<lparr>currentIndex = 0, words = split_on CHR '' '' t, fullText = t\<rparr>)],
                     nextTimer := Suc (nextTimer s1)\<rparr>))"

text \<open>
  One firing of the interval with handle \<open>h\<close>. A handle that is not in the table any more
  has no callback to fire. The callback given to \<open>simulateStreaming\<close> by \<open>sendMessage\<close>
  appends the assistant message; it is the only one there is.
\<close>

definition tick :: "nat \<Rightarrow> int \<Rightarrow> session \<Rightarrow> session" where
  "tick h now s =
     (case map_of (timers s) h of
        None \<Rightarrow> s
      | Some r \<Rightarrow>
          if currentIndex r < length (words r)
          then s\<lparr>streamingMessage := join '' '' (take (currentIndex r + 1) (words r)),
                 timers := map (\<lambda>(j, q). if j = h then (j, q\<lparr>currentIndex := currentIndex q + 1\<rparr>)
                                          else (j, q)) (timers s)\<rparr>
          else s\<lparr>timers := clearInterval (streamIntervalRef s) (timers s),
                 streamIntervalRef := None, isStreaming := False, streamingMessage := [],
                 messages := messages s @ [assistantMessage now (fullText r)]\<rparr>)"

subsection \<open>sendMessage\<close>

text \<open>
  \<open>sendMessage\<close> up to its \<open>await fetch(...)\<close>. The request is logged by the text of its
  \<open>message\<close> field.
\<close>

definition sendMessage :: "int \<Rightarrow> session \<Rightarrow> session" where
  "sendMessage now s =
     (if trim (input s) = [] \<or> isLoading s then s
      else s\<lparr>messages := messages s @ [userMessage now (trim (input s))],
             input := [], isLoading := True,
             requests := requests s @ [trim (input s)]\<rparr>)"

text \<open>
  What \<open>fetch\<close> comes back with: a rejected promise, or a response with a status and a
  body. The body is not JSON, or the JSON value \<open>null\<close>, or a JSON value whose \<open>reply\<close>
  is a string, or any other JSON value (\<open>reply\<close> absent or not a string).
\<close>

datatype body = NotJson | JsonNull | JsonOther | JsonReply string

datatype fetch_result = NetworkError | Response nat body

definition ok :: "nat \<Rightarrow> bool" where
  "ok status \<longleftrightarrow> 200 \<le> status \<and> status \<le> 299"

definition try_body :: "fetch_result \<Rightarrow> session \<Rightarrow> (js_error \<times> session) + session" where
  "try_body r s =
     (case r of
        NetworkError \<Rightarrow> Inl (FetchFailed, s)
      | Response status b \<Rightarrow>
          if \<not> ok status then Inl (HttpError status, s)
          else (case b of
                  NotJson \<Rightarrow> Inl (SyntaxError, s)
                | JsonNull \<Rightarrow> Inl (TypeError, s)
                | JsonOther \<Rightarrow> simulateStreaming None s
                | JsonReply t \<Rightarrow> simulateStreaming (Some t) s))"

text \<open>
  \<open>sendMessage\<close> from the \<open>await\<close> on: the \<open>try\<close>, the \<open>catch\<close> that appends the error
  message, and the \<open>finally\<close>. Nothing in the \<open>catch\<close> or the \<open>finally\<close> can throw, so the
  result is a state.
\<close>

definition sendMessage_resume :: "fetch_result \<Rightarrow> int \<Rightarrow> session \<Rightarrow> session" where
  "sendMessage_resume r now s =
     (let s2 = (case try_body r s of
                  Inl (e, s1) \<Rightarrow> s1\<lparr>messages := messages s1 @ [assistantMessage now errorText]\<rparr>
                | Inr s1 \<Rightarrow> s1)
      in s2\<lparr>isLoading := False\<rparr>)"

subsection \<open>Events\<close>

text \<open>
  What can happen to the page, as the JSX wires it: the input field (disabled while
  \<open>isLoading\<close>) changes; Enter is pressed in it, which calls \<open>sendMessage\<close>; the pending
  \<open>fetch\<close> settles, which resumes the suspended \<open>sendMessage\<close> (there is one exactly when
  \<open>isLoading\<close>); an interval fires; the Stop button (shown while \<open>isStreaming\<close>) is
  clicked. Every handler runs on the latest state.
\<close>

datatype event =
    SetInput string
  | Submit int
  | Respond fetch_result int
  | Tick nat int
  | Cancel int

fun step :: "event \<Rightarrow> session \<Rightarrow> session" where
  "step (SetInput v) s = (if isLoading s then s else s\<lparr>input := v\<rparr>)"
| "step (Submit now) s = sendMessage now s"
| "step (Respond r now) s = (if isLoading s then sendMessage_resume r now s else s)"
| "step (Tick h now) s = tick h now s"
| "step (Cancel now) s = (if isStreaming s then stopStreaming now s else s)"

definition run :: "event list \<Rightarrow> session \<Rightarrow> session" where
  "run es s = fold step es s"

section \<open>Rendering a message\<close>

subsection \<open>Splitting on a regular expression with one capturing group\<close>

text \<open>
  The four regular expressions of the source, each one capturing group:
  \<^item> \<open>ReCodeBlock\<close>: three backticks, any code units (as few as possible), three backticks;
  \<^item> \<open>ReInlineCode\<close>: a backtick, one or more code units that are not backticks, a backtick;
  \<^item> \<open>ReBold\<close>: two asterisks, one or more code units that are not asterisks, two asterisks;
  \<^item> \<open>ReItalic\<close>: an asterisk, one or more code units that are not asterisks, an asterisk.
\<close>

datatype pattern = ReCodeBlock | ReInlineCode | ReBold | ReItalic

definition fence :: string where
  "fence = [CHR 0x60, CHR 0x60, CHR 0x60]"

text \<open>
  The lazy body of \<open>ReCodeBlock\<close>: the code units up to the first closing fence, and what
  follows that fence.
\<close>

fun find_close :: "string \<Rightarrow> (string \<times> string) option" where
  "find_close [] = None"
| "find_close (c # cs) =
     (if startsWith fence (c # cs) then Some ([], drop 3 (c # cs))
      else (case find_close cs of None \<Rightarrow> None | Some (b, r) \<Rightarrow> Some (c # b, r)))"

text \<open>
  A delimiter \<open>d\<close>, one or more code units other than \<open>x\<close>, the delimiter again. The
  delimiters of the source begin with \<open>x\<close>, so the greedy run of other code units is the
  only one after which the closing delimiter can match.
\<close>

definition match_span :: "string \<Rightarrow> char \<Rightarrow> string \<Rightarrow> (string \<times> string) option" where
  "match_span d x s =
     (if startsWith d s
      then (let r = drop (length d) s;
                run = takeWhile (\<lambda>c. c \<noteq> x) r;
                after = dropWhile (\<lambda>c. c \<noteq> x) r
            in if run \<noteq> [] \<and> startsWith d after
               then Some (d @ run @ d, drop (length d) after)
               else None)
      else None)"

text \<open>A match of the pattern at the start of \<open>s\<close>: the text matched and the text after it.\<close>

fun match_at :: "pattern \<Rightarrow> string \<Rightarrow> (string \<times> string) option" where
  "match_at ReCodeBlock s =
     (if startsWith fence s
      then (case find_close (drop 3 s) of
              None \<Rightarrow> None
            | Some (b, r) \<Rightarrow> Some (fence @ b @ fence, r))
      else None)"
| "match_at ReInlineCode s = match_span [CHR 0x60] CHR 0x60 s"
| "match_at ReBold s = match_span ''**'' CHR ''*'' s"
| "match_at ReItalic s = match_span ''*'' CHR ''*'' s"

text \<open>
  \<open>s.split(re)\<close> for these patterns: the text before each match, the match itself (the
  capturing group), and at the end the text after the last match. \<open>acc\<close> holds, reversed,
  the code units passed since the last match.
\<close>

function split_re :: "pattern \<Rightarrow> string \<Rightarrow> string \<Rightarrow> string list" where
  "split_re p acc [] = [rev acc]"
| "split_re p acc (c # cs) =
     (case match_at p (c # cs) of
        Some (m, rest) \<Rightarrow> rev acc # m # split_re p [] rest
      | None \<Rightarrow> split_re p (c # acc) cs)"
  by pat_completeness auto
termination
proof -
  have len: "3 \<le> length s" if "startsWith fence s" for s
  proof -
    have three: "length fence = 3"
      by (simp add: fence_def)
    from that have "take (length fence) s = fence"
      unfolding startsWith_def .
    then have "length (take (length fence) s) = length fence"
      by (rule arg_cong)
    then show ?thesis
      unfolding three by simp
  qed
  have close: "length r + 3 \<le> length s" if "find_close s = Some (b, r)" for s b r
    using that
  proof (induction s arbitrary: b r)
    case Nil
    then show ?case by simp
  next
    case (Cons c cs)
    show ?case
    proof (cases "startsWith fence (c # cs)")
      case True
      with Cons.prems len [OF True] show ?thesis by auto
    next
      case False
      with Cons.prems obtain b' where "find_close cs = Some (b', r)"
        by (auto split: option.splits)
      from Cons.IH [OF this] show ?thesis by simp
    qed
  qed
  have span: "length r < length s" if "match_span d x s = Some (m, r)" for d x s m r
  proof -
    from that have "takeWhile (\<lambda>c. c \<noteq> x) (drop (length d) s) \<noteq> []"
      and r: "r = drop (length d) (dropWhile (\<lambda>c. c \<noteq> x) (drop (length d) s))"
      by (auto simp: match_span_def Let_def split: if_splits)
    then have "length (dropWhile (\<lambda>c. c \<noteq> x) (drop (length d) s)) < length (drop (length d) s)"
      by (metis append_self_conv2 length_append length_greater_0_conv less_add_same_cancel2
          takeWhile_dropWhile_id)
    with r show ?thesis by simp
  qed
  have shorter: "length r < length s" if "match_at p s = Some (m, r)" for p s m r
  proof (cases p)
    case ReCodeBlock
    with that obtain b where "startsWith fence s" and "find_close (drop 3 s) = Some (b, r)"
      by (auto split: if_splits option.splits)
    then show ?thesis
      using close [of "drop 3 s" b r] by simp
  qed (use that span in auto)
  show ?thesis
    by (relation "measure (\<lambda>(p, acc, s). length s)") (auto dest: shorter)
qed

subsection \<open>formatInlineMarkdown\<close>

text \<open>
  The inline elements, in document order: \<open>code\<close>, \<open>strong\<close> and \<open>em\<close> elements and plain
  strings. The source nests them in arrays and in one \<open>span\<close> element for each part that
  is not code; the model keeps the sequence of leaves, an empty string included.
\<close>

datatype span = InlineCode string | Bold string | Italic string | PlainText string

definition formatInlineMarkdown :: "string \<Rightarrow> span list" where
  "formatInlineMarkdown text' =
     concat (map
       (\<lambda>part.
          if startsWith [CHR 0x60] part \<and> endsWith [CHR 0x60] part
          then [InlineCode (slice 1 1 part)]
          else concat (map
            (\<lambda>segment.
               if startsWith ''**'' segment \<and> endsWith ''**'' segment
               then [Bold (slice 2 2 segment)]
               else map
                 (\<lambda>subSegment.
                    if startsWith ''*'' subSegment \<and> endsWith ''*'' subSegment
                       \<and> \<not> startsWith ''**'' subSegment
                    then Italic (slice 1 1 subSegment)
                    else PlainText subSegment)
                 (split_re ReItalic [] segment))
            (split_re ReBold [] part)))
       (split_re ReInlineCode [] text'))"

subsection \<open>formatTextWithMarkdown\<close>

text \<open>
  The block elements: \<open>br\<close>, a heading \<open>h1\<close> to \<open>h6\<close>, \<open>ul\<close> and \<open>ol\<close> with their items,
  and \<open>p\<close>. Keys and class names are left out.
\<close>

datatype block =
    Br
  | Heading nat "span list"
  | Ul "span list list"
  | Ol "span list list"
  | Paragraph "span list"

datatype list_type = UL | OL

record md_state =
  elements :: "block list"
  currentList :: "span list list"
  listType :: "list_type option"

definition flushList :: "md_state \<Rightarrow> md_state" where
  "flushList st =
     (if currentList st \<noteq> []
      then st\<lparr>elements := elements st @
                 (case listType st of
                    Some UL \<Rightarrow> [Ul (currentList st)]
                  | Some OL \<Rightarrow> [Ol (currentList st)]
                  | None \<Rightarrow> []),
              currentList := [], listType := None\<rparr>
      else st)"

definition is_digit :: "char \<Rightarrow> bool" where
  "is_digit c \<longleftrightarrow> c \<in> set ''0123456789''"

text \<open>\<open>/^[-*+]\s/\<close> and \<open>/^\d+\.\s/\<close>.\<close>

definition is_ul_item :: "string \<Rightarrow> bool" where
  "is_ul_item t =
     (case t of
        c # w # _ \<Rightarrow> (c = CHR ''-'' \<or> c = CHR ''*'' \<or> c = CHR ''+'') \<and> is_space w
      | _ \<Rightarrow> False)"

definition is_ol_item :: "string \<Rightarrow> bool" where
  "is_ol_item t =
     (takeWhile is_digit t \<noteq> [] \<and>
      (case dropWhile is_digit t of
         d # w # _ \<Rightarrow> d = CHR ''.'' \<and> is_space w
       | _ \<Rightarrow> False))"

text \<open>The body of the \<open>forEach\<close> over the lines.\<close>

definition formatLine :: "md_state \<Rightarrow> string \<Rightarrow> md_state" where
  "formatLine st line =
     (let trimmedLine = trim line in
      if trimmedLine = [] then
        (let st1 = flushList st in st1\<lparr>elements := elements st1 @ [Br]\<rparr>)
      else if startsWith ''#'' trimmedLine then
        (let st1 = flushList st;
             n = length (takeWhile (\<lambda>c. c = CHR ''#'') trimmedLine);
             level = (if n = 0 then 1 else n);
             headingText = dropWhile is_space (dropWhile (\<lambda>c. c = CHR ''#'') trimmedLine)
         in st1\<lparr>elements := elements st1 @
                  [Heading (min level 6) (formatInlineMarkdown headingText)]\<rparr>)
      else if is_ul_item trimmedLine then
        (let st1 = (if listType st \<noteq> Some UL then (flushList st)\<lparr>listType := Some UL\<rparr> else st)
         in st1\<lparr>currentList := currentList st1 @ [formatInlineMarkdown (drop 2 trimmedLine)]\<rparr>)
      else if is_ol_item trimmedLine then
        (let st1 = (if listType st \<noteq> Some OL then (flushList st)\<lparr>listType := Some OL\<rparr> else st)
         in st1\<lparr>currentList := currentList st1 @
                  [formatInlineMarkdown (drop 2 (dropWhile is_digit trimmedLine))]\<rparr>)
      else
        (let st1 = flushList st
         in st1\<lparr>elements := elements st1 @ [Paragraph (formatInlineMarkdown trimmedLine)]\<rparr>))"

definition formatTextWithMarkdown :: "string \<Rightarrow> block list" where
  "formatTextWithMarkdown text' =
     elements (flushList
       (foldl formatLine \<lparr>elements = [], currentList = [], listType = None\<rparr>
          (split_on CHR 0x0A text')))"

subsection \<open>formatMessage\<close>

text \<open>
  A code block with the language shown in its header and the code handed to the
  highlighter, or a run of text as its blocks.
\<close>

datatype segment = CodeSegment string string | TextSegment "block list"

text \<open>
  \<open>lines[0].trim()\<close> raises a TypeError on an empty array; the first error ends the \<open>map\<close>.
\<close>

fun collect :: "('e + 'a) list \<Rightarrow> 'e + 'a list" where
  "collect [] = Inr []"
| "collect (Inl e # xs) = Inl e"
| "collect (Inr a # xs) = (case collect xs of Inl e \<Rightarrow> Inl e | Inr as \<Rightarrow> Inr (a # as))"

definition formatMessage :: "string \<Rightarrow> js_error + segment list" where
  "formatMessage content' =
     collect (map
       (\<lambda>part.
          if startsWith fence part \<and> endsWith fence part
          then (let codeContent = slice 3 3 part;
                    lines = split_on CHR 0x0A codeContent
                in case lines of
                     [] \<Rightarrow> Inl TypeError
                   | l # ls \<Rightarrow>
                       Inr (CodeSegment (if trim l = [] then ''text'' else trim l)
                              (join [CHR 0x0A] ls)))
          else Inr (TextSegment (formatTextWithMarkdown part)))
       (split_re ReCodeBlock [] content'))"

subsection \<open>Reading the output\<close>

text \<open>The text of a span, and the language and body of each code block of a message.\<close>

fun span_text :: "span \<Rightarrow> string" where
  "span_text (InlineCode t) = t"
| "span_text (Bold t) = t"
| "span_text (Italic t) = t"
| "span_text (PlainText t) = t"

fun block_spans :: "block \<Rightarrow> span list" where
  "block_spans Br = []"
| "block_spans (Heading n ss) = ss"
| "block_spans (Ul items) = concat items"
| "block_spans (Ol items) = concat items"
| "block_spans (Paragraph ss) = ss"

fun codeBlocks :: "segment list \<Rightarrow> (string \<times> string) list" where
  "codeBlocks [] = []"
| "codeBlocks (CodeSegment l c # xs) = (l, c) # codeBlocks xs"
| "codeBlocks (TextSegment b # xs) = codeBlocks xs"

text \<open>Whether a closing or opening fence occurs anywhere in the text.\<close>

fun has_fence :: "string \<Rightarrow> bool" where
  "has_fence [] = False"
| "has_fence (c # cs) = (startsWith fence (c # cs) \<or> has_fence cs)"


text \<open>
  The language and the body of every code block that \<open>formatMessage\<close> renders for a
  message; none when it raises.
\<close>

definition renderedCode :: "string \<Rightarrow> (string \<times> string) list" where
  "renderedCode content' = (case formatMessage content' of Inl e \<Rightarrow> [] | Inr segs \<Rightarrow> codeBlocks segs)"

text \<open>The texts of all spans that \<open>formatTextWithMarkdown\<close> produces, concatenated.\<close>

definition renderedText :: "string \<Rightarrow> string" where
  "renderedText text' = concat (map span_text (concat (map block_spans (formatTextWithMarkdown text'))))"

section \<open>One reveal at a time\<close>

text \<open>
  No interval is live when no handle is held, and the live interval is the one whose
  handle is held.
\<close>

definition single_reveal :: "session \<Rightarrow> bool" where
  "single_reveal s \<longleftrightarrow>
     (case streamIntervalRef s of None \<Rightarrow> timers s = [] | Some h \<Rightarrow> map fst (timers s) = [h])"

section \<open>Sessions used as examples\<close>

text \<open>
  The user types \<open>hi\<close> and presses Enter at time 0; the request is pending.
\<close>

definition pending_hi :: session where
  "pending_hi = run [SetInput ''hi'', Submit 0] initial"

text \<open>The service then answers with the reply \<open>a b c\<close>, or with \<open>a b c d\<close>.\<close>

definition reveal_abc :: session where
  "reveal_abc = run [Respond (Response 200 (JsonReply ''a b c'')) 1] pending_hi"

definition reveal_abcd :: session where
  "reveal_abcd = run [Respond (Response 200 (JsonReply ''a b c d'')) 1] pending_hi"

text \<open>
  While \<open>a b c\<close> is being revealed the user types \<open>yo\<close> and presses Enter, and the
  service answers \<open>x y\<close>.
\<close>

definition overlap :: session where
  "overlap = run [SetInput ''yo'', Submit 2, Respond (Response 200 (JsonReply ''x y'')) 3] reveal_abc"

text \<open>The service answers the first request with the JSON body \<open>{}\<close>.\<close>

definition reply_missing :: session where
  "reply_missing = run [Respond (Response 200 JsonOther) 1] pending_hi"

section \<open>Properties of the session\<close>

lemmas session_defs = run_def sendMessage_def trim_def is_space_def sendMessage_resume_def
  try_body_def ok_def simulateStreaming_def tick_def clearInterval_def initial_def Let_def
  userMessage_def assistantMessage_def stopStreaming_def

lemma pending_hi_eq:
  "pending_hi = \<lparr>messages = [userMessage 0 ''hi''], input = [], isLoading = True,
     streamingMessage = [], isStreaming = False, streamIntervalRef = None, timers = [],
     nextTimer = 1, requests = [''hi'']\<rparr>"
  by (simp add: pending_hi_def session_defs)

lemma reveal_abc_eq:
  "reveal_abc = \<lparr>messages = [userMessage 0 ''hi''], input = [], isLoading = False,
     streamingMessage = [], isStreaming = True, streamIntervalRef = Some 1,
     timers = [(1, \<lparr>currentIndex = 0, words = [''a'', ''b'', ''c''], fullText = ''a b c''\<rparr>)],
     nextTimer = 2, requests = [''hi'']\<rparr>"
  by (simp add: reveal_abc_def pending_hi_eq run_def sendMessage_resume_def try_body_def ok_def
      simulateStreaming_def)

lemma reveal_abcd_eq:
  "reveal_abcd = \<lparr>messages = [userMessage 0 ''hi''], input = [], isLoading = False,
     streamingMessage = [], isStreaming = True, streamIntervalRef = Some 1,
     timers = [(1, \<lparr>currentIndex = 0, words = [''a'', ''b'', ''c'', ''d''], fullText = ''a b c d''\<rparr>)],
     nextTimer = 2, requests = [''hi'']\<rparr>"
  by (simp add: reveal_abcd_def pending_hi_eq run_def sendMessage_resume_def try_body_def ok_def
      simulateStreaming_def)

lemma overlap_eq:
  "overlap = \<lparr>messages = [userMessage 0 ''hi'', userMessage 2 ''yo''], input = [],
     isLoading = False, streamingMessage = [], isStreaming = True, streamIntervalRef = Some 2,
     timers = [(1, \<lparr>currentIndex = 0, words = [''a'', ''b'', ''c''], fullText = ''a b c''\<rparr>),
               (2, \<lparr>currentIndex = 0, words = [''x'', ''y''], fullText = ''x y''\<rparr>)],
     nextTimer = 3, requests = [''hi'', ''yo'']\<rparr>"
  by (simp add: overlap_def reveal_abc_eq session_defs)

lemma map_of_clearInterval: "map_of (clearInterval (Some h) ts) h = None"
  by (induction ts) (auto simp: clearInterval_def)

lemma clearInterval_only: "\<forall>j \<in> fst ` set ts. j = h \<Longrightarrow> clearInterval (Some h) ts = []"
  by (induction ts) (auto simp: clearInterval_def)

subsection \<open>Submitting\<close>

text \<open>
  C9. A submit made while the pending flag \<open>isLoading\<close> is set changes nothing: the message
  list and the log of outbound requests are the ones before the call, as is every other
  part of the state.
\<close>

theorem submit_while_pending_noop:
  "isLoading s \<Longrightarrow>
     sendMessage now s = s \<and>
     length (messages (sendMessage now s)) = length (messages s) \<and>
     requests (sendMessage now s) = requests s"
  by (simp add: sendMessage_def)

theorem submit_while_pending_noop_witness:
  "isLoading pending_hi \<and>
   sendMessage 9 pending_hi = pending_hi \<and>
   length (messages (sendMessage 9 pending_hi)) = length (messages pending_hi) \<and>
   requests (sendMessage 9 pending_hi) = requests pending_hi"
proof -
  have l: "isLoading pending_hi"
    by (simp add: pending_hi_eq)
  from submit_while_pending_noop [OF l, of 9] l show ?thesis by simp
qed

text \<open>
  C10. When the input trims to the empty string, a submit changes nothing: no message is
  appended, no request goes out and no flag changes. When it trims to a non-empty string
  and no request is pending, the user message appended and the request sent both carry
  the trimmed text; the input is cleared and the pending flag set.
\<close>

theorem submit_trims_input:
  "(trim (input s) = [] \<longrightarrow> sendMessage now s = s) \<and>
   (trim (input s) \<noteq> [] \<and> \<not> isLoading s \<longrightarrow>
      messages (sendMessage now s) = messages s @ [userMessage now (trim (input s))] \<and>
      content (last (messages (sendMessage now s))) = trim (input s) \<and>
      requests (sendMessage now s) = requests s @ [trim (input s)] \<and>
      input (sendMessage now s) = [] \<and>
      isLoading (sendMessage now s) \<and>
      isStreaming (sendMessage now s) = isStreaming s)"
  by (simp add: sendMessage_def userMessage_def)

theorem submit_trims_input_witness:
  "trim (input (initial\<lparr>input := ''   ''\<rparr>)) = [] \<and>
   sendMessage 5 (initial\<lparr>input := ''   ''\<rparr>) = initial\<lparr>input := ''   ''\<rparr> \<and>
   trim (input (initial\<lparr>input := ''  hi ''\<rparr>)) \<noteq> [] \<and>
   \<not> isLoading (initial\<lparr>input := ''  hi ''\<rparr>) \<and>
   messages (sendMessage 5 (initial\<lparr>input := ''  hi ''\<rparr>)) = [userMessage 5 ''hi''] \<and>
   requests (sendMessage 5 (initial\<lparr>input := ''  hi ''\<rparr>)) = [''hi'']"
proof -
  have blank: "trim (input (initial\<lparr>input := ''   ''\<rparr>)) = []"
    by (simp add: trim_def is_space_def)
  have nonblank: "trim (input (initial\<lparr>input := ''  hi ''\<rparr>)) = ''hi''"
    by (simp add: trim_def is_space_def)
  have idle: "\<not> isLoading (initial\<lparr>input := ''  hi ''\<rparr>)"
    by (simp add: initial_def)
  have empty: "messages (initial\<lparr>input := ''  hi ''\<rparr>) = [] \<and> requests (initial\<lparr>input := ''  hi ''\<rparr>) = []"
    by (simp add: initial_def)
  from submit_trims_input [of "initial\<lparr>input := ''   ''\<rparr>" 5]
       submit_trims_input [of "initial\<lparr>input := ''  hi ''\<rparr>" 5]
       blank nonblank idle empty
  show ?thesis by simp
qed

subsection \<open>The reveal\<close>

lemma tick_dead: "map_of (timers s) h = None \<Longrightarrow> tick h now s = s"
  by (simp add: tick_def)

text \<open>
  C2. The reveal of \<open>a b c\<close>: the first three ticks show \<open>a\<close>, \<open>a b\<close> and \<open>a b c\<close>, and
  nothing is appended to the messages yet. The fourth tick ends the reveal: the interval
  is cleared, the streaming flag and the shown prefix are reset, and the reply \<open>a b c\<close>
  is appended as one assistant message, whose content is \<open>a b c\<close>. No interval is left, so
  a later tick of any handle changes nothing: the contents of the messages stay \<open>hi\<close> and
  \<open>a b c\<close>, the reply appended once.
\<close>

theorem reveal_abc_ticks:
  "streamingMessage (run [Tick 1 2] reveal_abc) = ''a'' \<and>
   streamingMessage (run [Tick 1 2, Tick 1 3] reveal_abc) = ''a b'' \<and>
   streamingMessage (run [Tick 1 2, Tick 1 3, Tick 1 4] reveal_abc) = ''a b c'' \<and>
   isStreaming (run [Tick 1 2, Tick 1 3, Tick 1 4] reveal_abc) \<and>
   messages (run [Tick 1 2, Tick 1 3, Tick 1 4] reveal_abc) = [userMessage 0 ''hi''] \<and>
   run [Tick 1 2, Tick 1 3, Tick 1 4, Tick 1 5] reveal_abc =
     \<lparr>messages = [userMessage 0 ''hi'', assistantMessage 5 ''a b c''], input = [],
      isLoading = False, streamingMessage = [], isStreaming = False,
      streamIntervalRef = None, timers = [], nextTimer = 2, requests = [''hi'']\<rparr> \<and>
   (\<forall>h now. tick h now (run [Tick 1 2, Tick 1 3, Tick 1 4, Tick 1 5] reveal_abc) =
      run [Tick 1 2, Tick 1 3, Tick 1 4, Tick 1 5] reveal_abc) \<and>
   length (filter (\<lambda>m. role m = Assistant)
     (messages (run [Tick 1 2, Tick 1 3, Tick 1 4, Tick 1 5, Tick 1 6, Tick 1 7] reveal_abc))) = 1 \<and>
   map content (messages (run [Tick 1 2, Tick 1 3, Tick 1 4] reveal_abc)) = [''hi''] \<and>
   map content (messages (run [Tick 1 2, Tick 1 3, Tick 1 4, Tick 1 5] reveal_abc)) =
     [''hi'', ''a b c''] \<and>
   map role (messages (run [Tick 1 2, Tick 1 3, Tick 1 4, Tick 1 5] reveal_abc)) =
     [User, Assistant] \<and>
   map content
     (messages (run [Tick 1 2, Tick 1 3, Tick 1 4, Tick 1 5, Tick 1 6, Tick 1 7] reveal_abc)) =
     [''hi'', ''a b c'']"
proof -
  have fin: "run [Tick 1 2, Tick 1 3, Tick 1 4, Tick 1 5] reveal_abc =
     \<lparr>messages = [userMessage 0 ''hi'', assistantMessage 5 ''a b c''], input = [],
      isLoading = False, streamingMessage = [], isStreaming = False,
      streamIntervalRef = None, timers = [], nextTimer = 2, requests = [''hi'']\<rparr>"
    by (simp add: reveal_abc_eq run_def tick_def clearInterval_def)
  have dead: "\<forall>h now. tick h now (run [Tick 1 2, Tick 1 3, Tick 1 4, Tick 1 5] reveal_abc) =
      run [Tick 1 2, Tick 1 3, Tick 1 4, Tick 1 5] reveal_abc"
    unfolding fin by (simp add: tick_def)
  have once: "length (filter (\<lambda>m. role m = Assistant)
     (messages (run [Tick 1 2, Tick 1 3, Tick 1 4, Tick 1 5, Tick 1 6, Tick 1 7] reveal_abc))) = 1"
    by (simp add: reveal_abc_eq run_def tick_def clearInterval_def userMessage_def
        assistantMessage_def)
  have t1: "streamingMessage (run [Tick 1 2] reveal_abc) = ''a''"
    by (simp add: reveal_abc_eq run_def tick_def)
  have t2: "streamingMessage (run [Tick 1 2, Tick 1 3] reveal_abc) = ''a b''"
    by (simp add: reveal_abc_eq run_def tick_def)
  have t3: "streamingMessage (run [Tick 1 2, Tick 1 3, Tick 1 4] reveal_abc) = ''a b c'' \<and>
     isStreaming (run [Tick 1 2, Tick 1 3, Tick 1 4] reveal_abc) \<and>
     messages (run [Tick 1 2, Tick 1 3, Tick 1 4] reveal_abc) = [userMessage 0 ''hi'']"
    by (simp add: reveal_abc_eq run_def tick_def)
  have c3: "map content (messages (run [Tick 1 2, Tick 1 3, Tick 1 4] reveal_abc)) = [''hi'']"
    by (simp add: reveal_abc_eq run_def tick_def userMessage_def)
  have c4: "map content (messages (run [Tick 1 2, Tick 1 3, Tick 1 4, Tick 1 5] reveal_abc)) =
      [''hi'', ''a b c''] \<and>
    map role (messages (run [Tick 1 2, Tick 1 3, Tick 1 4, Tick 1 5] reveal_abc)) =
      [User, Assistant]"
    unfolding fin by (simp add: userMessage_def assistantMessage_def)
  have c6: "map content
      (messages (run [Tick 1 2, Tick 1 3, Tick 1 4, Tick 1 5, Tick 1 6, Tick 1 7] reveal_abc)) =
      [''hi'', ''a b c'']"
    by (simp add: reveal_abc_eq run_def tick_def clearInterval_def userMessage_def
        assistantMessage_def)
  from t1 t2 t3 fin dead once c3 c4 c6 show ?thesis by blast
qed

text \<open>
  Stopping while the handle of a reveal is held: the interval of that handle is cleared,
  so a later tick of it changes nothing, and when that interval was the only live one no
  interval is left at all. The handle and the streaming flag are reset. When the shown
  prefix is not empty it is appended as one assistant message with the prefix as content
  and then cleared; when it is empty the messages stay as they are.
\<close>

lemma stopStreaming_held:
  assumes "streamIntervalRef s = Some h"
  shows "map_of (timers (stopStreaming now s)) h = None \<and>
         tick h later (stopStreaming now s) = stopStreaming now s \<and>
         ((\<forall>j \<in> fst ` set (timers s). j = h) \<longrightarrow> timers (stopStreaming now s) = []) \<and>
         streamIntervalRef (stopStreaming now s) = None \<and>
         \<not> isStreaming (stopStreaming now s) \<and>
         streamingMessage (stopStreaming now s) = [] \<and>
         (streamingMessage s \<noteq> [] \<longrightarrow>
            messages (stopStreaming now s) =
              messages s @ [assistantMessage now (streamingMessage s)]) \<and>
         (streamingMessage s \<noteq> [] \<longrightarrow>
            map content (messages (stopStreaming now s)) =
              map content (messages s) @ [streamingMessage s]) \<and>
         (streamingMessage s = [] \<longrightarrow> messages (stopStreaming now s) = messages s)"
proof -
  have dead: "map_of (timers (stopStreaming now s)) h = None"
    using assms by (simp add: stopStreaming_def Let_def map_of_clearInterval)
  have none: "(\<forall>j \<in> fst ` set (timers s). j = h) \<longrightarrow> timers (stopStreaming now s) = []"
    using assms by (simp add: stopStreaming_def Let_def clearInterval_only)
  have rest: "streamIntervalRef (stopStreaming now s) = None \<and>
         \<not> isStreaming (stopStreaming now s) \<and>
         streamingMessage (stopStreaming now s) = [] \<and>
         (streamingMessage s \<noteq> [] \<longrightarrow>
            messages (stopStreaming now s) =
              messages s @ [assistantMessage now (streamingMessage s)]) \<and>
         (streamingMessage s \<noteq> [] \<longrightarrow>
            map content (messages (stopStreaming now s)) =
              map content (messages s) @ [streamingMessage s]) \<and>
         (streamingMessage s = [] \<longrightarrow> messages (stopStreaming now s) = messages s)"
    using assms by (simp add: stopStreaming_def Let_def assistantMessage_def)
  from dead none rest tick_dead [OF dead] show ?thesis by (simp add: assistantMessage_def)
qed

lemma stopStreaming_held_example:
  "streamIntervalRef (run [Tick 1 2, Tick 1 3] reveal_abcd) = Some 1 \<and>
   streamingMessage (run [Tick 1 2, Tick 1 3] reveal_abcd) = ''a b'' \<and>
   messages (run [Tick 1 2, Tick 1 3, Cancel 4] reveal_abcd) =
     [userMessage 0 ''hi'', assistantMessage 4 ''a b''] \<and>
   map content (messages (run [Tick 1 2, Tick 1 3, Cancel 4] reveal_abcd)) = [''hi'', ''a b''] \<and>
   timers (run [Tick 1 2, Tick 1 3, Cancel 4] reveal_abcd) = [] \<and>
   run [Tick 1 2, Tick 1 3, Cancel 4, Tick 1 5] reveal_abcd =
     run [Tick 1 2, Tick 1 3, Cancel 4] reveal_abcd \<and>
   streamIntervalRef reveal_abcd = Some 1 \<and>
   streamingMessage reveal_abcd = [] \<and>
   messages (run [Cancel 2] reveal_abcd) = messages reveal_abcd \<and>
   timers (run [Cancel 2] reveal_abcd) = []"
proof -
  define s where "s = run [Tick 1 2, Tick 1 3] reveal_abcd"
  have s: "s = \<lparr>messages = [userMessage 0 ''hi''], input = [], isLoading = False,
     streamingMessage = ''a b'', isStreaming = True, streamIntervalRef = Some 1,
     timers = [(1, \<lparr>currentIndex = 2, words = [''a'', ''b'', ''c'', ''d''], fullText = ''a b c d''\<rparr>)],
     nextTimer = 2, requests = [''hi'']\<rparr>"
    by (simp add: s_def reveal_abcd_eq run_def tick_def)
  have r: "streamIntervalRef s = Some 1" by (simp add: s)
  have r0: "streamIntervalRef reveal_abcd = Some 1" by (simp add: reveal_abcd_eq)
  have a: "run [Tick 1 2, Tick 1 3, Cancel 4] reveal_abcd = stopStreaming 4 s"
  proof -
    have "run [Tick 1 2, Tick 1 3, Cancel 4] reveal_abcd = run [Cancel 4] s"
      unfolding s_def by (simp add: run_def)
    also have "\<dots> = stopStreaming 4 s"
      unfolding s by (simp add: run_def)
    finally show ?thesis .
  qed
  have b: "run [Tick 1 2, Tick 1 3, Cancel 4, Tick 1 5] reveal_abcd = tick 1 5 (stopStreaming 4 s)"
  proof -
    have "run [Tick 1 2, Tick 1 3, Cancel 4, Tick 1 5] reveal_abcd = run [Cancel 4, Tick 1 5] s"
      unfolding s_def by (simp add: run_def)
    also have "\<dots> = tick 1 5 (run [Cancel 4] s)"
      by (simp add: run_def)
    also have "run [Cancel 4] s = stopStreaming 4 s"
      unfolding s by (simp add: run_def)
    finally show ?thesis .
  qed
  have c: "run [Cancel 2] reveal_abcd = stopStreaming 2 reveal_abcd"
    unfolding reveal_abcd_eq by (simp add: run_def)
  have sm: "streamingMessage s = ''a b'' \<and> messages s = [userMessage 0 ''hi''] \<and>
     map content (messages s) = [''hi''] \<and>
     (\<forall>j \<in> fst ` set (timers s). j = 1)"
    unfolding s by (simp add: userMessage_def)
  have sm0: "streamingMessage reveal_abcd = [] \<and> (\<forall>j \<in> fst ` set (timers reveal_abcd). j = 1)"
    unfolding reveal_abcd_eq by simp
  from stopStreaming_held [OF r, of 4 5] stopStreaming_held [OF r0, of 2 5] a b c r r0 sm sm0
  show ?thesis unfolding s_def [symmetric] by (simp add: userMessage_def assistantMessage_def)
qed

text \<open>
  A session with at most one reveal keeps at most one as long as no reply arrives while
  an interval is live.
\<close>

lemma single_reveal_step:
  assumes "single_reveal s" and "\<And>status t now. e = Respond (Response status (JsonReply t)) now \<Longrightarrow> timers s = []"
  shows "single_reveal (step e s)"
proof (cases e)
  case (SetInput v)
  with assms(1) show ?thesis by (simp add: single_reveal_def split: option.splits)
next
  case (Submit now)
  with assms(1) show ?thesis by (simp add: single_reveal_def sendMessage_def split: option.splits)
next
  case (Respond r now)
  with assms show ?thesis
    by (auto simp: single_reveal_def sendMessage_resume_def try_body_def simulateStreaming_def
        Let_def split: fetch_result.splits body.splits option.splits)
next
  case (Tick h now)
  with assms(1) show ?thesis
    by (auto simp: single_reveal_def tick_def clearInterval_def split: option.splits if_splits)
next
  case (Cancel now)
  with assms(1) show ?thesis
    by (auto simp: single_reveal_def stopStreaming_def clearInterval_def Let_def
        split: option.splits)
qed

lemma single_reveal_initial: "single_reveal initial"
  by (simp add: single_reveal_def initial_def)

text \<open>
  C1. Two reveals at once. While \<open>a b c\<close> is being revealed the input field is enabled and
  Enter calls \<open>sendMessage\<close>, whose guard reads \<open>isLoading\<close> only; the second reply starts a
  second interval and overwrites the handle of the first. Both intervals are live. Each
  fires in turn; the second one ends first and clears itself; the first one, at its end,
  finds no handle to clear, stays live, and appends its reply at every later tick.
\<close>

theorem overlapping_reveals:
  "map fst (timers overlap) = [1, 2] \<and>
   streamIntervalRef overlap = Some 2 \<and>
   map fst (timers (run [Tick 1 4, Tick 2 5, Tick 1 6, Tick 2 7, Tick 1 8, Tick 2 9] overlap)) = [1] \<and>
   streamIntervalRef (run [Tick 1 4, Tick 2 5, Tick 1 6, Tick 2 7, Tick 1 8, Tick 2 9] overlap) = None \<and>
   map content (messages
     (run [Tick 1 4, Tick 2 5, Tick 1 6, Tick 2 7, Tick 1 8, Tick 2 9, Tick 1 10, Tick 1 11] overlap)) =
     [''hi'', ''yo'', ''x y'', ''a b c'', ''a b c''] \<and>
   map fst (timers
     (run [Tick 1 4, Tick 2 5, Tick 1 6, Tick 2 7, Tick 1 8, Tick 2 9, Tick 1 10, Tick 1 11] overlap)) = [1]"
proof -
  have two: "map fst (timers overlap) = [1, 2] \<and> streamIntervalRef overlap = Some 2"
    unfolding overlap_eq by simp
  have six: "run [Tick 1 4, Tick 2 5, Tick 1 6, Tick 2 7, Tick 1 8, Tick 2 9] overlap =
     \<lparr>messages = [userMessage 0 ''hi'', userMessage 2 ''yo'', assistantMessage 9 ''x y''],
      input = [], isLoading = False, streamingMessage = [], isStreaming = False,
      streamIntervalRef = None,
      timers = [(1, \<lparr>currentIndex = 3, words = [''a'', ''b'', ''c''], fullText = ''a b c''\<rparr>)],
      nextTimer = 3, requests = [''hi'', ''yo'']\<rparr>"
    unfolding overlap_eq by (simp add: run_def tick_def clearInterval_def)
  have split: "run [Tick 1 4, Tick 2 5, Tick 1 6, Tick 2 7, Tick 1 8, Tick 2 9, Tick 1 10, Tick 1 11] overlap =
     run [Tick 1 10, Tick 1 11] (run [Tick 1 4, Tick 2 5, Tick 1 6, Tick 2 7, Tick 1 8, Tick 2 9] overlap)"
    by (simp add: run_def)
  have eight: "run [Tick 1 4, Tick 2 5, Tick 1 6, Tick 2 7, Tick 1 8, Tick 2 9, Tick 1 10, Tick 1 11] overlap =
     \<lparr>messages = [userMessage 0 ''hi'', userMessage 2 ''yo'', assistantMessage 9 ''x y'',
                  assistantMessage 10 ''a b c'', assistantMessage 11 ''a b c''],
      input = [], isLoading = False, streamingMessage = [], isStreaming = False,
      streamIntervalRef = None,
      timers = [(1, \<lparr>currentIndex = 3, words = [''a'', ''b'', ''c''], fullText = ''a b c''\<rparr>)],
      nextTimer = 3, requests = [''hi'', ''yo'']\<rparr>"
    unfolding split six by (simp add: run_def tick_def clearInterval_def)
  show ?thesis
    unfolding eight six using two by (simp add: userMessage_def assistantMessage_def)
qed

text \<open>
  C3. Stop while two reveals are live. After the first tick of the older interval the
  held handle is that of the newer one, the streaming flag is set and the shown prefix is
  \<open>a\<close>. Stop clears the newer interval, resets the handle and the flag and appends the
  shown prefix \<open>a\<close>; the older interval stays live. Its next tick changes the state and
  shows \<open>a b\<close>, and at its end it appends \<open>a b c\<close> at every tick: ticks go on after the
  stop, and three finalized messages follow it rather than one.
\<close>

theorem cancel_leaves_interval:
  "streamIntervalRef (run [Tick 1 4] overlap) = Some 2 \<and>
   isStreaming (run [Tick 1 4] overlap) \<and>
   streamingMessage (run [Tick 1 4] overlap) = ''a'' \<and>
   map fst (timers (run [Tick 1 4] overlap)) = [1, 2] \<and>
   map fst (timers (run [Tick 1 4, Cancel 5] overlap)) = [1] \<and>
   streamIntervalRef (run [Tick 1 4, Cancel 5] overlap) = None \<and>
   \<not> isStreaming (run [Tick 1 4, Cancel 5] overlap) \<and>
   map content (messages (run [Tick 1 4, Cancel 5] overlap)) = [''hi'', ''yo'', ''a''] \<and>
   streamingMessage (run [Tick 1 4, Cancel 5, Tick 1 6] overlap) = ''a b'' \<and>
   run [Tick 1 4, Cancel 5, Tick 1 6] overlap \<noteq> run [Tick 1 4, Cancel 5] overlap \<and>
   map content (messages (run [Tick 1 4, Cancel 5, Tick 1 6, Tick 1 7, Tick 1 8, Tick 1 9] overlap)) =
     [''hi'', ''yo'', ''a'', ''a b c'', ''a b c'']"
proof -
  have one: "run [Tick 1 4] overlap =
     \<lparr>messages = [userMessage 0 ''hi'', userMessage 2 ''yo''], input = [],
      isLoading = False, streamingMessage = ''a'', isStreaming = True,
      streamIntervalRef = Some 2,
      timers = [(1, \<lparr>currentIndex = 1, words = [''a'', ''b'', ''c''], fullText = ''a b c''\<rparr>),
                (2, \<lparr>currentIndex = 0, words = [''x'', ''y''], fullText = ''x y''\<rparr>)],
      nextTimer = 3, requests = [''hi'', ''yo'']\<rparr>"
    unfolding overlap_eq by (simp add: run_def tick_def)
  have s2: "run [Tick 1 4, Cancel 5] overlap = run [Cancel 5] (run [Tick 1 4] overlap)"
    by (simp add: run_def)
  have two: "run [Tick 1 4, Cancel 5] overlap =
     \<lparr>messages = [userMessage 0 ''hi'', userMessage 2 ''yo'', assistantMessage 5 ''a''],
      input = [], isLoading = False, streamingMessage = [], isStreaming = False,
      streamIntervalRef = None,
      timers = [(1, \<lparr>currentIndex = 1, words = [''a'', ''b'', ''c''], fullText = ''a b c''\<rparr>)],
      nextTimer = 3, requests = [''hi'', ''yo'']\<rparr>"
    unfolding s2 one by (simp add: run_def stopStreaming_def clearInterval_def)
  have s3: "run [Tick 1 4, Cancel 5, Tick 1 6] overlap = run [Tick 1 6] (run [Tick 1 4, Cancel 5] overlap)"
    by (simp add: run_def)
  have three: "run [Tick 1 4, Cancel 5, Tick 1 6] overlap =
     \<lparr>messages = [userMessage 0 ''hi'', userMessage 2 ''yo'', assistantMessage 5 ''a''],
      input = [], isLoading = False, streamingMessage = ''a b'', isStreaming = False,
      streamIntervalRef = None,
      timers = [(1, \<lparr>currentIndex = 2, words = [''a'', ''b'', ''c''], fullText = ''a b c''\<rparr>)],
      nextTimer = 3, requests = [''hi'', ''yo'']\<rparr>"
    unfolding s3 two by (simp add: run_def tick_def)
  have s6: "run [Tick 1 4, Cancel 5, Tick 1 6, Tick 1 7, Tick 1 8, Tick 1 9] overlap =
     run [Tick 1 7, Tick 1 8, Tick 1 9] (run [Tick 1 4, Cancel 5, Tick 1 6] overlap)"
    by (simp add: run_def)
  have six: "map content (messages (run [Tick 1 4, Cancel 5, Tick 1 6, Tick 1 7, Tick 1 8, Tick 1 9] overlap)) =
     [''hi'', ''yo'', ''a'', ''a b c'', ''a b c'']"
    unfolding s6 three
    by (simp add: run_def tick_def clearInterval_def userMessage_def assistantMessage_def)
  have a: "streamIntervalRef (run [Tick 1 4] overlap) = Some 2 \<and>
     isStreaming (run [Tick 1 4] overlap) \<and>
     streamingMessage (run [Tick 1 4] overlap) = ''a'' \<and>
     map fst (timers (run [Tick 1 4] overlap)) = [1, 2]"
    unfolding one by simp
  have b: "map fst (timers (run [Tick 1 4, Cancel 5] overlap)) = [1] \<and>
     streamIntervalRef (run [Tick 1 4, Cancel 5] overlap) = None \<and>
     \<not> isStreaming (run [Tick 1 4, Cancel 5] overlap) \<and>
     map content (messages (run [Tick 1 4, Cancel 5] overlap)) = [''hi'', ''yo'', ''a'']"
    unfolding two by (simp add: userMessage_def assistantMessage_def)
  have c: "streamingMessage (run [Tick 1 4, Cancel 5, Tick 1 6] overlap) = ''a b''"
    unfolding three by simp
  have d: "run [Tick 1 4, Cancel 5, Tick 1 6] overlap \<noteq> run [Tick 1 4, Cancel 5] overlap"
    unfolding three two by simp
  from a b c d six show ?thesis by blast
qed

subsection \<open>Transport failures\<close>

lemma resume_failure:
  "try_body r s = Inl (e, s1) \<Longrightarrow>
     messages (sendMessage_resume r now s) = messages s @ [assistantMessage now errorText] \<and>
     \<not> isLoading (sendMessage_resume r now s) \<and>
     timers (sendMessage_resume r now s) = timers s \<and>
     streamIntervalRef (sendMessage_resume r now s) = streamIntervalRef s"
  by (auto simp: sendMessage_resume_def try_body_def simulateStreaming_def Let_def
      split: fetch_result.splits body.splits if_splits)

text \<open>
  C8. A response with status 200 whose JSON body has no string \<open>reply\<close>, such as \<open>{}\<close>:
  \<open>simulateStreaming\<close> sets the streaming flag before \<open>text.split\<close> throws; the \<open>catch\<close>
  appends the error message and the \<open>finally\<close> clears \<open>isLoading\<close>, and the streaming flag
  stays set with no interval and no handle behind it, so that Stop does nothing.
\<close>

theorem reply_missing_leaves_streaming:
  "reply_missing =
     \<lparr>messages = [userMessage 0 ''hi'', assistantMessage 1 errorText], input = [],
      isLoading = False, streamingMessage = [], isStreaming = True,
      streamIntervalRef = None, timers = [], nextTimer = 1, requests = [''hi'']\<rparr> \<and>
   isStreaming reply_missing \<and>
   step (Cancel 2) reply_missing = reply_missing"
proof -
  have eq: "reply_missing =
     \<lparr>messages = [userMessage 0 ''hi'', assistantMessage 1 errorText], input = [],
      isLoading = False, streamingMessage = [], isStreaming = True,
      streamIntervalRef = None, timers = [], nextTimer = 1, requests = [''hi'']\<rparr>"
    unfolding reply_missing_def pending_hi_eq
    by (simp add: run_def sendMessage_resume_def try_body_def ok_def simulateStreaming_def)
  show ?thesis
    unfolding eq by (simp add: stopStreaming_def)
qed

section \<open>Properties of the rendering\<close>

lemmas inline_defs = formatInlineMarkdown_def match_span_def startsWith_def endsWith_def
  slice_def Let_def

lemma split_on_not_Nil: "split_on c s \<noteq> []"
  by (induction s) (auto split: list.splits)

lemma join_split_on: "join [c] (split_on c s) = s"
proof (induction s)
  case Nil
  show ?case by simp
next
  case (Cons x xs)
  show ?case
  proof (cases "split_on c xs")
    case Nil
    with split_on_not_Nil show ?thesis by blast
  next
    case (Cons w ws)
    with Cons.IH show ?thesis
      by (cases ws) auto
  qed
qed

lemma split_on_no_sep: "c \<notin> set s \<Longrightarrow> split_on c s = [s]"
  by (induction s) auto

lemma split_on_first: "c \<notin> set a \<Longrightarrow> split_on c (a @ c # b) = a # split_on c b"
  by (induction a) auto

lemma match_span_None: "d \<noteq> [] \<Longrightarrow> hd d \<notin> set s \<Longrightarrow> match_span d x s = None"
  by (cases d; cases s) (auto simp: match_span_def startsWith_def)

lemma split_re_backtick_free:
  "CHR 0x60 \<notin> set s \<Longrightarrow> split_re ReInlineCode acc s = [rev acc @ s]"
  by (induction s arbitrary: acc) (simp_all add: match_span_None)

lemma split_re_star_free:
  "CHR ''*'' \<notin> set s \<Longrightarrow> p = ReBold \<or> p = ReItalic \<Longrightarrow> split_re p acc s = [rev acc @ s]"
  by (induction s arbitrary: acc) (auto simp: match_span_None)

lemma formatInline_plain:
  assumes "CHR 0x60 \<notin> set s" and "CHR ''*'' \<notin> set s"
  shows "formatInlineMarkdown s = [PlainText s]"
proof -
  have a: "\<not> startsWith [CHR 0x60] s"
    using assms(1) by (cases s) (auto simp: startsWith_def)
  have b: "\<not> startsWith ''**'' s" "\<not> startsWith ''*'' s"
    using assms(2) by (cases s; auto simp: startsWith_def)+
  show ?thesis
    using a b assms by (simp add: formatInlineMarkdown_def split_re_backtick_free split_re_star_free)
qed


lemma set_trim: "set (trim s) \<subseteq> set s"
proof -
  have "set (dropWhile is_space (rev (dropWhile is_space s))) \<subseteq> set (rev (dropWhile is_space s))"
    by (auto dest: set_dropWhileD)
  also have "\<dots> \<subseteq> set s"
    by (auto dest: set_dropWhileD)
  finally show ?thesis
    by (simp add: trim_def)
qed

lemma formatText_plain_line:
  assumes "CHR 0x0A \<notin> set line" and "CHR 0x60 \<notin> set line" and "CHR ''*'' \<notin> set line"
    and "trim line \<noteq> []" and "\<not> startsWith ''#'' (trim line)"
    and "\<not> is_ul_item (trim line)" and "\<not> is_ol_item (trim line)"
  shows "formatTextWithMarkdown line = [Paragraph [PlainText (trim line)]]"
proof -
  have inl: "formatInlineMarkdown (trim line) = [PlainText (trim line)]"
    using assms(2,3) set_trim [of line] by (intro formatInline_plain) auto
  have "formatLine \<lparr>elements = [], currentList = [], listType = None\<rparr> line =
      \<lparr>elements = [Paragraph [PlainText (trim line)]], currentList = [], listType = None\<rparr>"
    using assms(4-7) by (simp add: formatLine_def Let_def flushList_def inl)
  then show ?thesis
    using assms(1) by (simp add: formatTextWithMarkdown_def split_on_no_sep flushList_def)
qed

lemma has_fence_sep:
  "c \<noteq> CHR 0x60 \<Longrightarrow> has_fence (a @ c # b) = (has_fence a \<or> has_fence b)"
proof (induction a)
  case Nil
  then show ?case by (simp add: startsWith_def fence_def)
next
  case (Cons x xs)
  have "startsWith fence (x # xs @ c # b) = startsWith fence (x # xs)"
  proof (cases xs)
    case Nil
    with Cons.prems show ?thesis by (auto simp: startsWith_def fence_def)
  next
    case (Cons y ys)
    with Cons.prems show ?thesis by (cases ys) (auto simp: startsWith_def fence_def)
  qed
  with Cons show ?case by simp
qed

lemma find_close_closing:
  "\<not> has_fence (xs @ [c]) \<Longrightarrow> c \<noteq> CHR 0x60 \<Longrightarrow>
     find_close (xs @ c # fence @ rest) = Some (xs @ [c], rest)"
proof (induction xs)
  case Nil
  then show ?case by (simp add: startsWith_def fence_def)
next
  case (Cons x xs)
  from Cons.prems have nf: "\<not> startsWith fence (x # xs @ [c])" and nh: "\<not> has_fence (xs @ [c])"
    by simp_all
  have "\<not> startsWith fence (x # xs @ c # fence @ rest)"
  proof (cases xs)
    case Nil
    with Cons.prems show ?thesis by (auto simp: startsWith_def fence_def)
  next
    case (Cons y ys)
    with nf show ?thesis by (cases ys) (auto simp: startsWith_def fence_def)
  qed
  with Cons.IH [OF nh Cons.prems(2)] show ?case by simp
qed

lemma fenced_parts:
  assumes "\<not> has_fence (xs @ [c])" and "c \<noteq> CHR 0x60"
  shows "split_re ReCodeBlock [] (fence @ xs @ c # fence) = [[], fence @ xs @ c # fence, []]"
proof -
  have st: "startsWith fence (fence @ xs @ c # fence)"
    by (simp add: startsWith_def)
  have dr: "drop 3 (fence @ xs @ c # fence) = xs @ c # fence @ []"
    by (simp add: fence_def)
  have m: "match_at ReCodeBlock (fence @ xs @ c # fence) = Some (fence @ xs @ c # fence, [])"
    using find_close_closing [OF assms, of "[]"] st unfolding match_at.simps dr by simp
  obtain z zs where z: "fence @ xs @ c # fence = z # zs"
    by (simp add: fence_def)
  show ?thesis
    using m unfolding z by simp
qed

lemma fenced_inner:
  "slice 3 3 (fence @ xs @ fence) = xs"
  "startsWith fence (fence @ xs @ fence)"
  "endsWith fence (fence @ xs @ fence)"
  by (simp_all add: slice_def startsWith_def endsWith_def fence_def)

lemma formatText_empty: "formatTextWithMarkdown [] = [Br]"
  by (simp add: formatTextWithMarkdown_def formatLine_def flushList_def trim_def)

lemma formatMessage_fenced:
  assumes "CHR 0x0A \<notin> set lang" and "\<not> has_fence lang" and "\<not> has_fence code"
  shows "formatMessage (fence @ lang @ [CHR 0x0A] @ code @ [CHR 0x0A] @ fence) =
     Inr [TextSegment [Br],
          CodeSegment (if trim lang = [] then ''text'' else trim lang) (code @ [CHR 0x0A]),
          TextSegment [Br]]"
proof -
  define inner where "inner = lang @ CHR 0x0A # code @ [CHR 0x0A]"
  have nf: "\<not> has_fence ((lang @ CHR 0x0A # code) @ [CHR 0x0A])"
    using assms(2,3) by (simp add: has_fence_sep)
  have parts: "split_re ReCodeBlock [] (fence @ inner @ fence) = [[], fence @ inner @ fence, []]"
    using fenced_parts [OF nf] by (simp add: inner_def)
  have lines: "split_on CHR 0x0A inner = lang # split_on CHR 0x0A (code @ [CHR 0x0A])"
    unfolding inner_def using assms(1) by (rule split_on_first)
  have body: "join [CHR 0x0A] (split_on CHR 0x0A (code @ [CHR 0x0A])) = code @ [CHR 0x0A]"
    by (rule join_split_on)
  have empty: "\<not> startsWith fence []"
    by (simp add: startsWith_def fence_def)
  have "formatMessage (fence @ inner @ fence) =
     Inr [TextSegment [Br],
          CodeSegment (if trim lang = [] then ''text'' else trim lang) (code @ [CHR 0x0A]),
          TextSegment [Br]]"
    unfolding formatMessage_def parts
    by (simp add: fenced_inner empty lines body formatText_empty Let_def)
  then show ?thesis by (simp add: inner_def)
qed

subsection \<open>Fenced code\<close>

text \<open>
  C4, as stated, at the input of three backticks, \<open>lang\<close>, a line feed, \<open>code\<close>, a line
  feed and three backticks: no code block with language \<open>lang\<close> and body \<open>code\<close> is
  rendered.
\<close>

theorem fenced_body_counterexample:
  "(''lang'', ''code'') \<notin>
     set (renderedCode (fence @ ''lang'' @ [CHR 0x0A] @ ''code'' @ [CHR 0x0A] @ fence))"
proof -
  have "renderedCode (fence @ ''lang'' @ [CHR 0x0A] @ ''code'' @ [CHR 0x0A] @ fence) =
      [(''lang'', ''code'' @ [CHR 0x0A])]"
    by (simp add: renderedCode_def formatMessage_def fence_def startsWith_def endsWith_def
        slice_def formatTextWithMarkdown_def formatLine_def flushList_def trim_def is_space_def
        Let_def)
  then show ?thesis by simp
qed

text \<open>
  C4, amended. For a language line \<open>lang\<close> without a line feed and a code text \<open>code\<close>,
  neither holding three backticks in a row, the message made of a fence, \<open>lang\<close>, a line
  feed, \<open>code\<close>, a line feed and a fence renders as one code block between two empty
  texts. Its language is \<open>lang\<close> trimmed, or \<open>text\<close> when that is empty; so it is \<open>lang\<close>
  itself when \<open>lang\<close> is not empty and has no white space at its ends. Its body is \<open>code\<close>
  followed by the line feed that stands before the closing fence.
\<close>

theorem fenced_code_extracted:
  assumes "CHR 0x0A \<notin> set lang" and "\<not> has_fence lang" and "\<not> has_fence code"
  shows "formatMessage (fence @ lang @ [CHR 0x0A] @ code @ [CHR 0x0A] @ fence) =
           Inr [TextSegment [Br],
                CodeSegment (if trim lang = [] then ''text'' else trim lang) (code @ [CHR 0x0A]),
                TextSegment [Br]] \<and>
         (lang \<noteq> [] \<and> trim lang = lang \<longrightarrow>
            renderedCode (fence @ lang @ [CHR 0x0A] @ code @ [CHR 0x0A] @ fence) =
              [(lang, code @ [CHR 0x0A])])"
  using formatMessage_fenced [OF assms] by (simp add: renderedCode_def)

theorem fenced_code_extracted_witness:
  "CHR 0x0A \<notin> set ''lang'' \<and> \<not> has_fence ''lang'' \<and> \<not> has_fence ''code'' \<and>
   ''lang'' \<noteq> [] \<and> trim ''lang'' = ''lang'' \<and>
   renderedCode (fence @ ''lang'' @ [CHR 0x0A] @ ''code'' @ [CHR 0x0A] @ fence) =
     [(''lang'', ''code'' @ [CHR 0x0A])]"
proof -
  have a: "CHR 0x0A \<notin> set ''lang''" by simp
  have b: "\<not> has_fence ''lang''" by (simp add: startsWith_def fence_def)
  have c: "\<not> has_fence ''code''" by (simp add: startsWith_def fence_def)
  have d: "''lang'' \<noteq> [] \<and> trim ''lang'' = ''lang''" by (simp add: trim_def is_space_def)
  from fenced_code_extracted [OF a b c] a b c d show ?thesis by blast
qed

subsection \<open>Inline formatting\<close>

text \<open>
  C5, as stated: the spans of the example line are not the five of the claim.
\<close>

theorem inline_example_counterexample:
  "formatInlineMarkdown (''Use '' @ [CHR 0x60] @ ''x=1'' @ [CHR 0x60] @ '' **bold** and *italic*'') \<noteq>
     [InlineCode ''x=1'', PlainText '' '', Bold ''bold'', PlainText '' and '', Italic ''italic'']"
  by (simp add: inline_defs)

text \<open>
  C5, amended. The example line gives the plain text \<open>Use \<close> first, then the inline code
  \<open>x=1\<close>, a plain space, the bold \<open>bold\<close>, the plain \<open> and \<close>, the italic \<open>italic\<close>, and
  last the empty plain text that follows the final match. Code is split off before bold
  and bold before italic: asterisks inside backticks stay in the code span, and a pair of
  double asterisks is bold, not italic.
\<close>

theorem inline_example_spans:
  "formatInlineMarkdown (''Use '' @ [CHR 0x60] @ ''x=1'' @ [CHR 0x60] @ '' **bold** and *italic*'') =
     [PlainText ''Use '', InlineCode ''x=1'', PlainText '' '', Bold ''bold'',
      PlainText '' and '', Italic ''italic'', PlainText []] \<and>
   formatInlineMarkdown ([CHR 0x60] @ ''**a** *b*'' @ [CHR 0x60]) =
     [PlainText [], InlineCode ''**a** *b*'', PlainText []] \<and>
   formatInlineMarkdown ''**a**'' = [PlainText [], Bold ''a'', PlainText []]"
  by (simp add: inline_defs)

text \<open>
  C6. A line that is only an empty pair of delimiters is not matched by any of the
  patterns, yet the test on how the part starts and ends takes it for a match: two
  backticks give an empty code span, four asterisks and two asterisks an empty bold span,
  and the delimiters are gone from the output. Inside other text the same pairs stay
  plain.
\<close>

theorem empty_delimiters_styled:
  "formatInlineMarkdown [CHR 0x60, CHR 0x60] = [InlineCode []] \<and>
   formatInlineMarkdown ''****'' = [Bold []] \<and>
   formatInlineMarkdown ''**'' = [Bold []] \<and>
   formatInlineMarkdown ''a ** b'' = [PlainText ''a ** b''] \<and>
   split_re ReInlineCode [] [CHR 0x60, CHR 0x60] = [[CHR 0x60, CHR 0x60]] \<and>
   split_re ReBold [] ''****'' = [''****''] \<and>
   split_re ReBold [] ''**'' = [''**'']"
  by (simp add: inline_defs)

subsection \<open>Plain paragraphs\<close>

text \<open>
  C7, as stated, at the line of a space followed by \<open>hi\<close>: the texts of its spans give
  \<open>hi\<close>, not the line.
\<close>

theorem paragraph_roundtrip_counterexample:
  "renderedText '' hi'' \<noteq> '' hi''"
  by (simp add: renderedText_def formatTextWithMarkdown_def formatLine_def flushList_def trim_def
      is_space_def Let_def startsWith_def is_ul_item_def is_ol_item_def is_digit_def inline_defs)

text \<open>
  C7, amended. A line without line feed, backtick or asterisk that is not blank and, once
  trimmed, starts neither with \<open>#\<close> nor with a list marker is rendered as one paragraph of
  one plain span, and the texts of its spans give the line trimmed: the line itself when
  it has no white space at its ends.
\<close>

theorem paragraph_roundtrip_trimmed:
  assumes "CHR 0x0A \<notin> set line" and "CHR 0x60 \<notin> set line" and "CHR ''*'' \<notin> set line"
    and "trim line \<noteq> []" and "\<not> startsWith ''#'' (trim line)"
    and "\<not> is_ul_item (trim line)" and "\<not> is_ol_item (trim line)"
  shows "formatTextWithMarkdown line = [Paragraph [PlainText (trim line)]] \<and>
         renderedText line = trim line \<and>
         (trim line = line \<longrightarrow> renderedText line = line)"
  using formatText_plain_line [OF assms] by (simp add: renderedText_def)

theorem paragraph_roundtrip_trimmed_witness:
  "CHR 0x0A \<notin> set '' so it goes. '' \<and> CHR 0x60 \<notin> set '' so it goes. '' \<and>
   CHR ''*'' \<notin> set '' so it goes. '' \<and> trim '' so it goes. '' \<noteq> [] \<and>
   \<not> startsWith ''#'' (trim '' so it goes. '') \<and> \<not> is_ul_item (trim '' so it goes. '') \<and>
   \<not> is_ol_item (trim '' so it goes. '') \<and>
   renderedText '' so it goes. '' = ''so it goes.'' \<and>
   trim ''so it goes.'' = ''so it goes.'' \<and> renderedText ''so it goes.'' = ''so it goes.''"
proof -
  have t: "trim '' so it goes. '' = ''so it goes.''" "trim ''so it goes.'' = ''so it goes.''"
    by (simp_all add: trim_def is_space_def)
  have a: "CHR 0x0A \<notin> set '' so it goes. ''" "CHR 0x60 \<notin> set '' so it goes. ''"
    "CHR ''*'' \<notin> set '' so it goes. ''" "trim '' so it goes. '' \<noteq> []"
    "\<not> startsWith ''#'' (trim '' so it goes. '')" "\<not> is_ul_item (trim '' so it goes. '')"
    "\<not> is_ol_item (trim '' so it goes. '')"
    unfolding t by (simp_all add: startsWith_def is_ul_item_def is_ol_item_def is_digit_def)
  have b: "CHR 0x0A \<notin> set ''so it goes.''" "CHR 0x60 \<notin> set ''so it goes.''"
    "CHR ''*'' \<notin> set ''so it goes.''" "trim ''so it goes.'' \<noteq> []"
    "\<not> startsWith ''#'' (trim ''so it goes.'')" "\<not> is_ul_item (trim ''so it goes.'')"
    "\<not> is_ol_item (trim ''so it goes.'')"
    unfolding t by (simp_all add: startsWith_def is_ul_item_def is_ol_item_def is_digit_def)
  from paragraph_roundtrip_trimmed [OF a] paragraph_roundtrip_trimmed [OF b] a t
  show ?thesis by simp
qed

end
